theory Spec2Isabelle
  imports Main "HOL-Library.Word"
begin

section \<open>retry.go: ExponentialRetry\<close>

subsection \<open>Data\<close>

text \<open>
  Go's \<^verbatim>\<open>uint\<close> (64 bits on the usual platforms) and \<^verbatim>\<open>time.Duration\<close>
  (an \<^verbatim>\<open>int64\<close> count of nanoseconds, read with \<open>sint\<close>). Arithmetic on both wraps.
\<close>

type_synonym uint = "64 word"
type_synonym Duration = "64 word"

text \<open>
  Error values: what \<^verbatim>\<open>errors.New\<close> builds, the two sentinels of package
  \<^verbatim>\<open>context\<close>, and an error wrapping another one (\<^verbatim>\<open>fmt.Errorf("...%w", e)\<close>).
  A Go \<^verbatim>\<open>error\<close> that may be nil is an \<open>error option\<close>.
\<close>

datatype error =
    ErrorString string
  | DeadlineExceeded
  | Canceled
  | Wrapped string error

text \<open>\<^verbatim>\<open>errors.Is(err, target)\<close>: \<open>err\<close> or an error it wraps equals \<open>target\<close>.\<close>

fun errors_Is :: "error \<Rightarrow> error \<Rightarrow> bool" where
  "errors_Is (Wrapped m e) target = (Wrapped m e = target \<or> errors_Is e target)"
| "errors_Is e target = (e = target)"

text \<open>
  \<^verbatim>\<open>context.Context\<close>, as far as ExponentialRetry reads it before the loop:
  \<^verbatim>\<open>ctx.Deadline()\<close> returns the deadline and \<open>ok\<close>; \<open>None\<close> is \<open>ok = false\<close>.
\<close>

record Context =
  Deadline :: "int option"

text \<open>
  The \<^verbatim>\<open>select\<close> of lines 27-38 races \<^verbatim>\<open>time.After(backoff)\<close> against
  \<^verbatim>\<open>ctx.Done()\<close>. Which one is received is decided by the world (the clock, the
  context, the scheduler), not by ExponentialRetry. \<open>CtxDone e\<close> carries the value
  \<^verbatim>\<open>ctx.Err()\<close> has once \<^verbatim>\<open>Done\<close> is closed (non-nil by the contract of
  \<^verbatim>\<open>context.Context\<close>, and the same at every later call).
\<close>

datatype select_result = TimerFired | CtxDone error

text \<open>What a run does besides returning, in order.\<close>

datatype event =
    Invoke            \<comment> \<open>a call of \<^verbatim>\<open>fn\<close> (line 18)\<close>
  | Wait Duration     \<comment> \<open>the select entered with \<^verbatim>\<open>time.After(backoff)\<close> (lines 27-28)\<close>
  | Log string        \<comment> \<open>\<^verbatim>\<open>slog.Info\<close> (lines 33, 35)\<close>

text \<open>The return statement a run leaves through.\<close>

datatype return_site =
    NoDeadlineReturn  \<comment> \<open>line 14\<close>
  | SuccessReturn     \<comment> \<open>line 20\<close>
  | ExhaustedReturn   \<comment> \<open>line 24\<close>
  | CancelledReturn   \<comment> \<open>line 37\<close>
  | FallbackReturn    \<comment> \<open>line 40\<close>

text \<open>
  The outcome of a call: the returned pair \<^verbatim>\<open>(T, error)\<close>, the return statement
  taken, the state the world is left in, and the events of the run.
\<close>

record ('a, 's) outcome =
  val :: 'a
  err :: "error option"
  site :: return_site
  world :: 's
  trace :: "event list"

definition invocations :: "event list \<Rightarrow> nat" where
  "invocations tr = length (filter (\<lambda>e. e = Invoke) tr)"

subsection \<open>The function\<close>

text \<open>
  Line 26: \<^verbatim>\<open>backoff := baseBackoff * time.Duration(1<<attempt)\<close>. The constant 1
  takes the type \<^verbatim>\<open>time.Duration\<close>, so the shift is a 64-bit shift (a count of 64 or
  more gives 0) and the product wraps in 64 bits.
\<close>

definition backoff :: "Duration \<Rightarrow> uint \<Rightarrow> Duration" where
  "backoff baseBackoff attempt = baseBackoff * push_bit (unat attempt) 1"

text \<open>
  The operation \<^verbatim>\<open>fn\<close> is a closure: it reads and changes a state \<open>'s\<close> (its captured
  variables and whatever else of the world it touches) and returns \<^verbatim>\<open>(T, error)\<close>.
  The select changes the same world (time passes). Both are functions: a call of the
  operation returns, and every select ends one way or the other. The loop of lines 17-39,
  entered with the loop variable \<open>attempt\<close>:
\<close>

function retry_loop ::
  "'a \<Rightarrow> ('s \<Rightarrow> ('a \<times> error option) \<times> 's) \<Rightarrow> (Duration \<Rightarrow> 's \<Rightarrow> select_result \<times> 's) \<Rightarrow>
   uint \<Rightarrow> Duration \<Rightarrow> uint \<Rightarrow> 's \<Rightarrow> event list \<Rightarrow> ('a, 's) outcome"
where
  "retry_loop zero fn select maxRetries baseBackoff attempt s tr =
    (if attempt \<le> maxRetries then
       (case fn s of
          ((result, None), s1) \<Rightarrow>
            \<lparr>val = result, err = None, site = SuccessReturn, world = s1,
             trace = tr @ [Invoke]\<rparr>
        | ((result, Some e), s1) \<Rightarrow>
            if attempt = maxRetries then
              \<lparr>val = zero, err = Some e, site = ExhaustedReturn, world = s1,
               trace = tr @ [Invoke]\<rparr>
            else
              (case select (backoff baseBackoff attempt) s1 of
                 (TimerFired, s2) \<Rightarrow>
                   retry_loop zero fn select maxRetries baseBackoff (attempt + 1) s2
                     (tr @ [Invoke, Wait (backoff baseBackoff attempt)])
               | (CtxDone ce, s2) \<Rightarrow>
                   \<lparr>val = zero, err = Some ce, site = CancelledReturn, world = s2,
                    trace = tr @ [Invoke, Wait (backoff baseBackoff attempt),
                      Log (if errors_Is ce DeadlineExceeded then ''deadline exceeded''
                           else ''canceled or timeout'')]\<rparr>))
     else
       \<lparr>val = zero, err = Some (ErrorString ''exponential retry failed''),
        site = FallbackReturn, world = s, trace = tr\<rparr>)"
  by pat_completeness auto

termination retry_loop
proof (relation "measure (\<lambda>(zero, fn, select, maxRetries, baseBackoff, attempt, s, tr).
    Suc (unat maxRetries) - unat attempt)")
  fix maxRetries attempt :: uint
  assume "attempt \<le> maxRetries" and "attempt \<noteq> maxRetries"
  then have "unat attempt < unat maxRetries"
    by (simp add: word_le_nat_alt word_unat_eq_iff)
  moreover have "unat maxRetries < 2 ^ 64"
    using unsigned_less [of maxRetries, where ?'a = nat] by simp
  ultimately have "unat (attempt + 1) = Suc (unat attempt)"
    by (simp add: unat_word_ariths)
  with \<open>unat attempt < unat maxRetries\<close>
  show "((zero, fn, select, maxRetries, baseBackoff, attempt + 1, s2,
          tr @ [Invoke, Wait (backoff baseBackoff attempt)]),
         (zero, fn, select, maxRetries, baseBackoff, attempt, s, tr))
        \<in> measure (\<lambda>(zero, fn, select, maxRetries, baseBackoff, attempt, s, tr).
            Suc (unat maxRetries) - unat attempt)"
    for zero :: 'a and fn :: "'s \<Rightarrow> ('a \<times> error option) \<times> 's"
      and select :: "Duration \<Rightarrow> 's \<Rightarrow> select_result \<times> 's"
      and baseBackoff :: Duration and s s2 :: 's and tr :: "event list"
    by simp
qed simp

declare retry_loop.simps [simp del]

text \<open>
  ExponentialRetry itself. \<open>zero\<close> is \<^verbatim>\<open>var zero T\<close>, the zero value of the type
  parameter; \<open>s\<close> is the world the call starts in.
\<close>

definition ExponentialRetry ::
  "'a \<Rightarrow> Context \<Rightarrow> uint \<Rightarrow> Duration \<Rightarrow> ('s \<Rightarrow> ('a \<times> error option) \<times> 's) \<Rightarrow>
   (Duration \<Rightarrow> 's \<Rightarrow> select_result \<times> 's) \<Rightarrow> 's \<Rightarrow> ('a, 's) outcome"
where
  "ExponentialRetry zero ctx maxRetries baseBackoff fn select s =
    (case Deadline ctx of
       None \<Rightarrow>
         \<lparr>val = zero, err = Some (ErrorString ''no deadline set by caller''),
          site = NoDeadlineReturn, world = s, trace = []\<rparr>
     | Some d \<Rightarrow> retry_loop zero fn select maxRetries baseBackoff 0 s [])"

subsection \<open>The course of a run\<close>

text \<open>
  Claims speak of "invocation k" and of "the wait after attempt k". For an operation and
  a select given as state transformers these are read off the world: \<open>state_before k\<close>
  is the world in which invocation \<open>k\<close> (0-indexed) starts when each of the \<open>k\<close> earlier
  invocations was followed by a wait that ran its course; \<open>invocation k\<close> is what that
  invocation returns and \<open>wait_after k\<close> is how the select entered after it ends.
\<close>

fun state_before ::
  "('s \<Rightarrow> ('a \<times> error option) \<times> 's) \<Rightarrow> (Duration \<Rightarrow> 's \<Rightarrow> select_result \<times> 's) \<Rightarrow>
   Duration \<Rightarrow> 's \<Rightarrow> nat \<Rightarrow> 's"
where
  "state_before fn select baseBackoff s 0 = s"
| "state_before fn select baseBackoff s (Suc k) =
     snd (select (backoff baseBackoff (of_nat k))
       (snd (fn (state_before fn select baseBackoff s k))))"

definition invocation ::
  "('s \<Rightarrow> ('a \<times> error option) \<times> 's) \<Rightarrow> (Duration \<Rightarrow> 's \<Rightarrow> select_result \<times> 's) \<Rightarrow>
   Duration \<Rightarrow> 's \<Rightarrow> nat \<Rightarrow> 'a \<times> error option"
where
  "invocation fn select baseBackoff s k = fst (fn (state_before fn select baseBackoff s k))"

definition wait_after ::
  "('s \<Rightarrow> ('a \<times> error option) \<times> 's) \<Rightarrow> (Duration \<Rightarrow> 's \<Rightarrow> select_result \<times> 's) \<Rightarrow>
   Duration \<Rightarrow> 's \<Rightarrow> nat \<Rightarrow> select_result"
where
  "wait_after fn select baseBackoff s k =
     fst (select (backoff baseBackoff (of_nat k))
       (snd (fn (state_before fn select baseBackoff s k))))"

text \<open>The events of \<open>k\<close> failed attempts, each followed by a completed wait.\<close>

fun rounds :: "Duration \<Rightarrow> nat \<Rightarrow> event list" where
  "rounds baseBackoff 0 = []"
| "rounds baseBackoff (Suc k) =
     rounds baseBackoff k @ [Invoke, Wait (backoff baseBackoff (of_nat k))]"

subsection \<open>The operations of the tests\<close>

text \<open>
  The closures of the tests, with the number of calls made so far as their state:
  one that fails every time with the same error, and the one of
  \<^verbatim>\<open>TestExponentialRetry_SucceedsAfterRetry\<close> (\<^verbatim>\<open>attempts++\<close>, fail while
  \<^verbatim>\<open>attempts < 3\<close>, then return 7). The two selects: the timer always ends the wait,
  or the deadline always does.
\<close>

definition always_fails :: "int \<Rightarrow> error \<Rightarrow> nat \<Rightarrow> (int \<times> error option) \<times> nat" where
  "always_fails r e attempts = ((r, Some e), Suc attempts)"

definition succeeds_on_third :: "nat \<Rightarrow> (int \<times> error option) \<times> nat" where
  "succeeds_on_third attempts =
     (if Suc attempts < 3 then ((0, Some (ErrorString ''fail'')), Suc attempts)
      else ((7, None), Suc attempts))"

definition timer_wins :: "Duration \<Rightarrow> nat \<Rightarrow> select_result \<times> nat" where
  "timer_wins d attempts = (TimerFired, attempts)"

definition deadline_wins :: "Duration \<Rightarrow> nat \<Rightarrow> select_result \<times> nat" where
  "deadline_wins d attempts = (CtxDone DeadlineExceeded, attempts)"

section \<open>roundtrip.go: TestingRoundTripper\<close>

text \<open>
  \<^verbatim>\<open>var ErrNoMockResponse = errors.New("no mock response available")\<close> (line 9).
\<close>

definition ErrNoMockResponse :: error where
  "ErrNoMockResponse = ErrorString ''no mock response available''"

text \<open>
  \<^verbatim>\<open>*testing.T\<close>, as far as RoundTrip uses it: the calls of \<^verbatim>\<open>Errorf\<close> made on
  it, each with its format and its argument. The test has failed when there is one.
\<close>

record testing_T =
  errorfs :: "(string \<times> int) list"

definition Errorf :: "testing_T \<Rightarrow> string \<Rightarrow> int \<Rightarrow> testing_T" where
  "Errorf T format arg = T\<lparr>errorfs := errorfs T @ [(format, arg)]\<rparr>"

text \<open>
  The struct of lines 11-16. A \<^verbatim>\<open>*http.Response\<close> is an \<open>'r option\<close>, \<open>None\<close> being
  nil; \<open>index\<close> is a Go \<^verbatim>\<open>int\<close>, which RoundTrip increments only while it is below
  the length of a slice, so the increment never overflows; \<open>t\<close> is \<open>None\<close> when the
  pointer is nil.
\<close>

record 'r TestingRoundTripper =
  responses :: "'r option list"
  index :: int
  t :: "testing_T option"

definition WithTest :: "'r TestingRoundTripper \<Rightarrow> testing_T option \<Rightarrow> 'r TestingRoundTripper" where
  "WithTest srt T = srt\<lparr>t := T\<rparr>"

definition WithMockResponses ::
  "'r TestingRoundTripper \<Rightarrow> 'r option list \<Rightarrow> 'r TestingRoundTripper" where
  "WithMockResponses srt rs = srt\<lparr>responses := rs\<rparr>"

definition AddMockResponse ::
  "'r TestingRoundTripper \<Rightarrow> 'r option \<Rightarrow> 'r TestingRoundTripper" where
  "AddMockResponse srt r = srt\<lparr>responses := responses srt @ [r]\<rparr>"

text \<open>
  What a call of RoundTrip does: it returns \<^verbatim>\<open>(*http.Response, error)\<close>, or it panics
  (line 41 indexes the slice, and a negative index is out of range).
\<close>

datatype 'r round_trip = Returned "'r option" "error option" | Panicked

text \<open>RoundTrip (lines 33-45); the request is not looked at.\<close>

definition RoundTrip ::
  "'r TestingRoundTripper \<Rightarrow> 'q \<Rightarrow> 'r round_trip \<times> 'r TestingRoundTripper" where
  "RoundTrip srt req =
    (if index srt \<ge> int (length (responses srt)) then
       (Returned None (Some ErrNoMockResponse),
        (case t srt of
           None \<Rightarrow> srt
         | Some T \<Rightarrow>
             srt\<lparr>t := Some (Errorf T ''no mock response for request at index %d'' (index srt))\<rparr>))
     else if index srt < 0 then (Panicked, srt)
     else (Returned (responses srt ! nat (index srt)) None, srt\<lparr>index := index srt + 1\<rparr>))"

text \<open>
  A sequence of calls, one for each request of the list: what each call did, and the
  round tripper after the last one. A panic ends the sequence.
\<close>

fun round_trips ::
  "'r TestingRoundTripper \<Rightarrow> 'q list \<Rightarrow> 'r round_trip list \<times> 'r TestingRoundTripper" where
  "round_trips srt [] = ([], srt)"
| "round_trips srt (req # reqs) =
     (case RoundTrip srt req of
        (Panicked, srt1) \<Rightarrow> ([Panicked], srt1)
      | (r, srt1) \<Rightarrow> (case round_trips srt1 reqs of (rs, srt2) \<Rightarrow> (r # rs, srt2)))"

text \<open>The round tripper of \<^verbatim>\<open>TestTestingRoundTripper_RoundTrip\<close>: responses as
  (status, body).\<close>

definition token_refresh :: "(int \<times> string) TestingRoundTripper" where
  "token_refresh =
     WithMockResponses \<lparr>responses = [], index = 0, t = None\<rparr>
       [Some (401, ''token expired''), Some (200, ''{\"access_token\":\"newtok\"}''),
        Some (200, ''welcome'')]"

text \<open>Shorthand for the outcome of call \<open>j\<close> when the stored responses are replayed in order.\<close>

abbreviation replayed :: "'r option list \<Rightarrow> nat \<Rightarrow> 'r round_trip" where
  "replayed rs j \<equiv>
     (if j < length rs then Returned (rs ! j) None else Returned None (Some ErrNoMockResponse))"

section \<open>Properties of the retry loop\<close>

subsection \<open>One pass of the loop\<close>

lemma unat_succ_below:
  fixes a m :: uint
  assumes "a \<le> m" and "a \<noteq> m"
  shows "unat (a + 1) = Suc (unat a)"
proof -
  have "unat a < unat m"
    using assms by (simp add: word_le_nat_alt word_unat_eq_iff)
  moreover have "unat m < 2 ^ 64"
    using unsigned_less [of m, where ?'a = nat] by simp
  ultimately have "unat a + 1 < 2 ^ 64"
    by simp
  then show ?thesis
    by (simp add: unat_word_ariths)
qed

lemma retry_loop_success:
  assumes "attempt \<le> maxRetries" and "fn s = ((result, None), s1)"
  shows "retry_loop zero fn select maxRetries baseBackoff attempt s tr =
    \<lparr>val = result, err = None, site = SuccessReturn, world = s1, trace = tr @ [Invoke]\<rparr>"
  using assms by (simp add: retry_loop.simps)

lemma retry_loop_exhausted:
  assumes "fn s = ((result, Some e), s1)"
  shows "retry_loop zero fn select maxRetries baseBackoff maxRetries s tr =
    \<lparr>val = zero, err = Some e, site = ExhaustedReturn, world = s1, trace = tr @ [Invoke]\<rparr>"
  using assms by (simp add: retry_loop.simps)

lemma retry_loop_cancelled:
  assumes "attempt \<le> maxRetries" and "attempt \<noteq> maxRetries"
    and "fn s = ((result, Some e), s1)"
    and "select (backoff baseBackoff attempt) s1 = (CtxDone ce, s2)"
  shows "retry_loop zero fn select maxRetries baseBackoff attempt s tr =
    \<lparr>val = zero, err = Some ce, site = CancelledReturn, world = s2,
     trace = tr @ [Invoke, Wait (backoff baseBackoff attempt),
       Log (if errors_Is ce DeadlineExceeded then ''deadline exceeded''
            else ''canceled or timeout'')]\<rparr>"
  using assms by (simp add: retry_loop.simps)

lemma retry_loop_continue:
  assumes "attempt \<le> maxRetries" and "attempt \<noteq> maxRetries"
    and "fn s = ((result, Some e), s1)"
    and "select (backoff baseBackoff attempt) s1 = (TimerFired, s2)"
  shows "retry_loop zero fn select maxRetries baseBackoff attempt s tr =
    retry_loop zero fn select maxRetries baseBackoff (attempt + 1) s2
      (tr @ [Invoke, Wait (backoff baseBackoff attempt)])"
  using assms by (subst retry_loop.simps) simp

lemma of_nat_below:
  fixes m :: uint
  assumes "k \<le> unat m"
  shows "of_nat k \<le> m" and "unat (of_nat k :: uint) = k"
  using assms by (simp_all add: word_le_nat_alt le_unat_uoi)

lemma of_nat_strictly_below:
  fixes m :: uint
  assumes "k < unat m"
  shows "(of_nat k :: uint) \<noteq> m"
  using assms le_unat_uoi [of k m] by auto

text \<open>k failed attempts, each followed by a wait that the timer ends, lead to attempt k.\<close>

lemma retry_loop_unroll:
  assumes "k \<le> unat maxRetries"
    and "\<forall>j<k. snd (invocation fn select baseBackoff s j) \<noteq> None \<and>
           wait_after fn select baseBackoff s j = TimerFired"
  shows "retry_loop zero fn select maxRetries baseBackoff 0 s [] =
    retry_loop zero fn select maxRetries baseBackoff (of_nat k)
      (state_before fn select baseBackoff s k) (rounds baseBackoff k)"
  using assms
proof (induction k)
  case 0
  show ?case by simp
next
  case (Suc k)
  let ?s = "state_before fn select baseBackoff s k"
  have below: "k < unat maxRetries"
    using Suc.prems(1) by simp
  obtain r e s1 where fn: "fn ?s = ((r, Some e), s1)"
    using Suc.prems(2) [rule_format, of k]
    by (cases "fn ?s") (auto simp: invocation_def)
  obtain s2 where sel: "select (backoff baseBackoff (of_nat k)) s1 = (TimerFired, s2)"
    using Suc.prems(2) [rule_format, of k] fn
    by (cases "select (backoff baseBackoff (of_nat k)) s1") (auto simp: wait_after_def)
  have "retry_loop zero fn select maxRetries baseBackoff 0 s [] =
      retry_loop zero fn select maxRetries baseBackoff (of_nat k) ?s (rounds baseBackoff k)"
    using Suc.IH Suc.prems by simp
  also have "\<dots> = retry_loop zero fn select maxRetries baseBackoff (of_nat k + 1) s2
      (rounds baseBackoff k @ [Invoke, Wait (backoff baseBackoff (of_nat k))])"
    using below fn sel
    by (intro retry_loop_continue) (simp_all add: of_nat_below of_nat_strictly_below)
  finally show ?case
    using fn sel by (simp add: add.commute)
qed

lemma length_rounds: "length (rounds baseBackoff k) = 2 * k"
  by (induction k) simp_all

lemma invocations_rounds: "invocations (rounds baseBackoff k) = k"
  by (induction k) (simp_all add: invocations_def)

lemma invocations_append: "invocations (xs @ ys) = invocations xs + invocations ys"
  by (simp add: invocations_def)

subsection \<open>Properties of every run of the loop\<close>

text \<open>
  A property of the outcome holds for the loop when it holds at each of the four
  returns and is carried through a pass that continues.
\<close>

lemma retry_loop_outcome:
  assumes fallback: "\<And>attempt s tr. \<not> attempt \<le> maxRetries \<Longrightarrow>
      P attempt s tr \<lparr>val = zero, err = Some (ErrorString ''exponential retry failed''),
        site = FallbackReturn, world = s, trace = tr\<rparr>"
    and success: "\<And>attempt s tr r s1. attempt \<le> maxRetries \<Longrightarrow> fn s = ((r, None), s1) \<Longrightarrow>
      P attempt s tr \<lparr>val = r, err = None, site = SuccessReturn, world = s1,
        trace = tr @ [Invoke]\<rparr>"
    and exhausted: "\<And>s tr r e s1. fn s = ((r, Some e), s1) \<Longrightarrow>
      P maxRetries s tr \<lparr>val = zero, err = Some e, site = ExhaustedReturn, world = s1,
        trace = tr @ [Invoke]\<rparr>"
    and cancelled: "\<And>attempt s tr r e s1 ce s2. attempt \<le> maxRetries \<Longrightarrow>
      attempt \<noteq> maxRetries \<Longrightarrow> fn s = ((r, Some e), s1) \<Longrightarrow>
      select (backoff baseBackoff attempt) s1 = (CtxDone ce, s2) \<Longrightarrow>
      P attempt s tr \<lparr>val = zero, err = Some ce, site = CancelledReturn, world = s2,
        trace = tr @ [Invoke, Wait (backoff baseBackoff attempt),
          Log (if errors_Is ce DeadlineExceeded then ''deadline exceeded''
               else ''canceled or timeout'')]\<rparr>"
    and continue: "\<And>attempt s tr r e s1 s2 out. attempt \<le> maxRetries \<Longrightarrow>
      attempt \<noteq> maxRetries \<Longrightarrow> fn s = ((r, Some e), s1) \<Longrightarrow>
      select (backoff baseBackoff attempt) s1 = (TimerFired, s2) \<Longrightarrow>
      P (attempt + 1) s2 (tr @ [Invoke, Wait (backoff baseBackoff attempt)]) out \<Longrightarrow>
      P attempt s tr out"
  shows "P attempt s tr (retry_loop zero fn select maxRetries baseBackoff attempt s tr)"
proof (induction "Suc (unat maxRetries) - unat attempt" arbitrary: attempt s tr
    rule: less_induct)
  case less
  show ?case
  proof (cases "attempt \<le> maxRetries")
    case False
    then show ?thesis
      using fallback [of attempt s tr] by (simp add: retry_loop.simps)
  next
    case le: True
    obtain r oe s1 where fn: "fn s = ((r, oe), s1)"
      by (metis prod.exhaust)
    show ?thesis
    proof (cases oe)
      case None
      with le fn success [of attempt s r s1 tr] show ?thesis
        by (simp add: retry_loop_success)
    next
      case (Some e)
      show ?thesis
      proof (cases "attempt = maxRetries")
        case True
        with fn Some exhausted [of s r e s1 tr] show ?thesis
          by (simp add: retry_loop_exhausted)
      next
        case ne: False
        obtain w s2 where sel: "select (backoff baseBackoff attempt) s1 = (w, s2)"
          by (metis prod.exhaust)
        show ?thesis
        proof (cases w)
          case TimerFired
          let ?tr = "tr @ [Invoke, Wait (backoff baseBackoff attempt)]"
          have step: "retry_loop zero fn select maxRetries baseBackoff attempt s tr =
              retry_loop zero fn select maxRetries baseBackoff (attempt + 1) s2 ?tr"
            using le ne fn Some sel TimerFired by (intro retry_loop_continue) simp_all
          have "Suc (unat maxRetries) - unat (attempt + 1) <
              Suc (unat maxRetries) - unat attempt"
            using le ne by (simp add: unat_succ_below word_le_nat_alt)
          then have "P (attempt + 1) s2 ?tr
              (retry_loop zero fn select maxRetries baseBackoff (attempt + 1) s2 ?tr)"
            by (rule less.hyps)
          then show ?thesis
            using le ne fn Some sel TimerFired step continue [of attempt s r e s1 s2 tr]
            by simp
        next
          case (CtxDone ce)
          with le ne fn Some sel cancelled [of attempt s r e s1 ce s2 tr] show ?thesis
            by (simp add: retry_loop_cancelled)
        qed
      qed
    qed
  qed
qed

lemma trace_extends:
  "\<exists>more. trace (retry_loop zero fn select maxRetries baseBackoff attempt s tr) = tr @ more"
  by (rule retry_loop_outcome [where P = "\<lambda>attempt s tr out. \<exists>more. trace out = tr @ more"])
    auto

lemma loop_invocations:
  "invocations (trace (retry_loop zero fn select maxRetries baseBackoff attempt s tr))
     \<le> invocations tr + (Suc (unat maxRetries) - unat attempt)"
  by (rule retry_loop_outcome [where P = "\<lambda>attempt s tr out.
        invocations (trace out) \<le> invocations tr + (Suc (unat maxRetries) - unat attempt)"])
    (auto simp: invocations_def unat_succ_below word_le_nat_alt)

lemma succ_below:
  fixes a m :: uint
  assumes "a \<le> m" and "a \<noteq> m"
  shows "a + 1 \<le> m"
  using assms unat_succ_below [OF assms]
  by (simp add: word_le_nat_alt word_unat_eq_iff)

lemma loop_never_falls_through:
  assumes "attempt \<le> maxRetries"
  shows "site (retry_loop zero fn select maxRetries baseBackoff attempt s tr) \<noteq> FallbackReturn"
proof -
  have "attempt \<le> maxRetries \<longrightarrow>
      site (retry_loop zero fn select maxRetries baseBackoff attempt s tr) \<noteq> FallbackReturn"
    by (rule retry_loop_outcome [where P = "\<lambda>attempt s tr out.
          attempt \<le> maxRetries \<longrightarrow> site out \<noteq> FallbackReturn"])
      (simp_all add: succ_below)
  with assms show ?thesis
    by simp
qed

lemma loop_error_paths:
  "(err (retry_loop zero fn select maxRetries baseBackoff attempt s tr) \<noteq> None \<or>
    site (retry_loop zero fn select maxRetries baseBackoff attempt s tr) \<noteq> SuccessReturn)
   \<Longrightarrow> val (retry_loop zero fn select maxRetries baseBackoff attempt s tr) = zero \<and>
     err (retry_loop zero fn select maxRetries baseBackoff attempt s tr) \<noteq> None \<and>
     site (retry_loop zero fn select maxRetries baseBackoff attempt s tr) \<noteq> SuccessReturn"
  by (rule retry_loop_outcome [where P = "\<lambda>attempt s tr out.
        (err out \<noteq> None \<or> site out \<noteq> SuccessReturn) \<longrightarrow>
        val out = zero \<and> err out \<noteq> None \<and> site out \<noteq> SuccessReturn", rule_format])
    auto

subsection \<open>The backoff\<close>

lemma backoff_wraps:
  "uint (backoff baseBackoff attempt) = (sint baseBackoff * 2 ^ unat attempt) mod 2 ^ 64"
proof -
  have "backoff baseBackoff attempt =
      word_of_int (sint baseBackoff) * word_of_int (2 ^ unat attempt)"
    by (simp add: backoff_def push_bit_eq_mult)
  also have "\<dots> = word_of_int (sint baseBackoff * 2 ^ unat attempt)"
    by simp
  finally show ?thesis
    by (simp only: uint_word_of_int) simp
qed

lemma backoff_exact:
  assumes "- (2 ^ 63) \<le> sint baseBackoff * 2 ^ unat attempt"
    and "sint baseBackoff * 2 ^ unat attempt < 2 ^ 63"
  shows "sint (backoff baseBackoff attempt) = sint baseBackoff * 2 ^ unat attempt"
proof -
  have "backoff baseBackoff attempt =
      word_of_int (sint baseBackoff) * word_of_int (2 ^ unat attempt)"
    by (simp add: backoff_def push_bit_eq_mult)
  also have "\<dots> = word_of_int (sint baseBackoff * 2 ^ unat attempt)"
    by simp
  finally have "sint (backoff baseBackoff attempt) =
      signed_take_bit 63 (sint baseBackoff * 2 ^ unat attempt)"
    by (simp only: sint_sbintrunc') simp
  with assms show ?thesis
    by (simp add: signed_take_bit_int_eq_self)
qed

lemma wait_in_trace:
  assumes "i < unat maxRetries"
    and "\<forall>j\<le>i. snd (invocation fn select baseBackoff s j) \<noteq> None"
    and "\<forall>j<i. wait_after fn select baseBackoff s j = TimerFired"
  shows "\<exists>more. trace (retry_loop zero fn select maxRetries baseBackoff 0 s []) =
    rounds baseBackoff i @ [Invoke, Wait (backoff baseBackoff (of_nat i))] @ more"
proof -
  let ?s = "state_before fn select baseBackoff s i"
  let ?b = "backoff baseBackoff (of_nat i)"
  let ?tr = "rounds baseBackoff i @ [Invoke, Wait ?b]"
  obtain r e s1 where fn: "fn ?s = ((r, Some e), s1)"
    using assms(2) [rule_format, of i] by (cases "fn ?s") (auto simp: invocation_def)
  obtain w s2 where sel: "select ?b s1 = (w, s2)"
    by (metis prod.exhaust)
  have le: "(of_nat i :: uint) \<le> maxRetries" and ne: "(of_nat i :: uint) \<noteq> maxRetries"
    using assms(1) by (simp_all add: of_nat_below of_nat_strictly_below)
  have start: "retry_loop zero fn select maxRetries baseBackoff 0 s [] =
      retry_loop zero fn select maxRetries baseBackoff (of_nat i) ?s (rounds baseBackoff i)"
    using assms by (intro retry_loop_unroll) simp_all
  show ?thesis
  proof (cases w)
    case TimerFired
    with le ne fn sel
    have "retry_loop zero fn select maxRetries baseBackoff (of_nat i) ?s
        (rounds baseBackoff i) =
        retry_loop zero fn select maxRetries baseBackoff (of_nat i + 1) s2 ?tr"
      by (intro retry_loop_continue) simp_all
    with start trace_extends [of zero fn select maxRetries baseBackoff "of_nat i + 1" s2 ?tr]
    show ?thesis
      by auto
  next
    case (CtxDone ce)
    with le ne fn sel start show ?thesis
      by (simp add: retry_loop_cancelled)
  qed
qed

section \<open>Claims about ExponentialRetry\<close>

text \<open>
  C1. When the context carries no deadline, ExponentialRetry returns the zero value and
  the error "no deadline set by caller" through the return of line 14, and the operation
  is not invoked: the run has no event at all and leaves the world as it found it. This
  holds for every maxRetries, baseBackoff, operation and select.
\<close>

theorem no_deadline_fails_fast:
  assumes "Deadline ctx = None"
  shows "ExponentialRetry zero ctx maxRetries baseBackoff fn select s =
      \<lparr>val = zero, err = Some (ErrorString ''no deadline set by caller''),
       site = NoDeadlineReturn, world = s, trace = []\<rparr> \<and>
    invocations (trace (ExponentialRetry zero ctx maxRetries baseBackoff fn select s)) = 0"
  using assms by (simp add: ExponentialRetry_def invocations_def)

theorem no_deadline_fails_fast_witness:
  "Deadline \<lparr>Deadline = None\<rparr> = None \<and>
   ExponentialRetry (0 :: int) \<lparr>Deadline = None\<rparr> 2 1000000 succeeds_on_third timer_wins 0 =
      \<lparr>val = 0, err = Some (ErrorString ''no deadline set by caller''),
       site = NoDeadlineReturn, world = 0, trace = []\<rparr> \<and>
   invocations (trace (ExponentialRetry (0 :: int) \<lparr>Deadline = None\<rparr> 2 1000000
      succeeds_on_third timer_wins 0)) = 0"
  using no_deadline_fails_fast [of "\<lparr>Deadline = None\<rparr>" "0 :: int" 2 1000000
      succeeds_on_third timer_wins 0]
  by (simp add: invocations_def)

text \<open>
  C2. A call of ExponentialRetry invokes the operation at most maxRetries + 1 times,
  whatever the context, baseBackoff, operation and select are and whichever return the
  run leaves through (the bound is on the events of the finished run).
\<close>

theorem invocations_bounded:
  "invocations (trace (ExponentialRetry zero ctx maxRetries baseBackoff fn select s))
     \<le> unat maxRetries + 1"
proof (cases "Deadline ctx")
  case None
  then show ?thesis
    by (simp add: ExponentialRetry_def invocations_def)
next
  case (Some d)
  have "invocations (trace (retry_loop zero fn select maxRetries baseBackoff 0 s []))
      \<le> invocations [] + (Suc (unat maxRetries) - unat (0 :: uint))"
    by (rule loop_invocations)
  with Some show ?thesis
    by (simp add: ExponentialRetry_def invocations_def)
qed

text \<open>
  C3. With a deadline on the context, let invocations 0 to k - 1 fail, each followed by
  a wait that the timer ends, and let invocation k (k at most maxRetries) return the
  value v with a nil error. Then ExponentialRetry returns v with a nil error, the
  operation has been invoked exactly k + 1 times, and the run ends with that invocation:
  its events are the k failed rounds and one more Invoke, with no wait behind it.
\<close>

theorem first_success_returns:
  fixes zero :: 'a
  assumes "Deadline ctx = Some d"
    and "k \<le> unat maxRetries"
    and "\<forall>j<k. snd (invocation fn select baseBackoff s j) \<noteq> None \<and>
           wait_after fn select baseBackoff s j = TimerFired"
    and "invocation fn select baseBackoff s k = (v, None)"
  defines "out \<equiv> ExponentialRetry zero ctx maxRetries baseBackoff fn select s"
  shows "val out = v \<and> err out = None \<and> site out = SuccessReturn \<and>
    invocations (trace out) = k + 1 \<and>
    trace out = rounds baseBackoff k @ [Invoke] \<and> last (trace out) = Invoke"
proof -
  let ?s = "state_before fn select baseBackoff s k"
  obtain s1 where fn: "fn ?s = ((v, None), s1)"
    using assms(4) by (cases "fn ?s") (simp add: invocation_def)
  have "out = retry_loop zero fn select maxRetries baseBackoff (of_nat k) ?s
      (rounds baseBackoff k)"
    using assms(1) retry_loop_unroll [OF assms(2,3)]
    by (simp add: out_def ExponentialRetry_def)
  also have "\<dots> = \<lparr>val = v, err = None, site = SuccessReturn, world = s1,
      trace = rounds baseBackoff k @ [Invoke]\<rparr>"
    using assms(2) fn by (intro retry_loop_success) (simp_all add: of_nat_below)
  finally show ?thesis
    by (simp add: invocations_append invocations_rounds) (simp add: invocations_def)
qed

theorem first_success_returns_witness:
  "val (ExponentialRetry (0 :: int) \<lparr>Deadline = Some 1000000000\<rparr> 5 5000000
      succeeds_on_third timer_wins 0) = 7 \<and>
   err (ExponentialRetry (0 :: int) \<lparr>Deadline = Some 1000000000\<rparr> 5 5000000
      succeeds_on_third timer_wins 0) = None \<and>
   invocations (trace (ExponentialRetry (0 :: int) \<lparr>Deadline = Some 1000000000\<rparr> 5 5000000
      succeeds_on_third timer_wins 0)) = 3 \<and>
   trace (ExponentialRetry (0 :: int) \<lparr>Deadline = Some 1000000000\<rparr> 5 5000000
      succeeds_on_third timer_wins 0) =
     [Invoke, Wait 5000000, Invoke, Wait 10000000, Invoke]"
proof -
  have "Deadline \<lparr>Deadline = Some 1000000000\<rparr> = Some 1000000000"
    by simp
  moreover have "2 \<le> unat (5 :: uint)"
    by simp
  moreover have "\<forall>j<2. snd (invocation succeeds_on_third timer_wins 5000000 0 j) \<noteq> None \<and>
      wait_after succeeds_on_third timer_wins 5000000 0 j = TimerFired"
    by (simp add: invocation_def wait_after_def succeeds_on_third_def timer_wins_def
        numeral_2_eq_2 less_Suc_eq)
  moreover have "invocation succeeds_on_third timer_wins 5000000 0 2 = (7, None)"
    by (simp add: invocation_def succeeds_on_third_def timer_wins_def numeral_2_eq_2)
  ultimately have "trace (ExponentialRetry (0 :: int) \<lparr>Deadline = Some 1000000000\<rparr> 5
        5000000 succeeds_on_third timer_wins 0) = rounds 5000000 2 @ [Invoke] \<and>
      val (ExponentialRetry (0 :: int) \<lparr>Deadline = Some 1000000000\<rparr> 5
        5000000 succeeds_on_third timer_wins 0) = 7 \<and>
      err (ExponentialRetry (0 :: int) \<lparr>Deadline = Some 1000000000\<rparr> 5
        5000000 succeeds_on_third timer_wins 0) = None"
    using first_success_returns [of "\<lparr>Deadline = Some 1000000000\<rparr>" 1000000000 2 5
        succeeds_on_third timer_wins 5000000 0 7 "0 :: int"]
    by blast
  then show ?thesis
    by (simp add: numeral_2_eq_2 backoff_def invocations_def)
qed

text \<open>
  C4. With a deadline on the context, let every wait be ended by the timer and let the
  operation fail on each of the invocations 0 to maxRetries. Then ExponentialRetry
  returns, through the return of line 24, the zero value and exactly the error of
  invocation maxRetries, the last of its maxRetries + 1 invocations.
\<close>

theorem exhaustion_returns_last_error:
  fixes zero :: 'a
  assumes "Deadline ctx = Some d"
    and "\<forall>j<unat maxRetries. wait_after fn select baseBackoff s j = TimerFired"
    and "\<forall>j\<le>unat maxRetries. snd (invocation fn select baseBackoff s j) \<noteq> None"
  defines "out \<equiv> ExponentialRetry zero ctx maxRetries baseBackoff fn select s"
  shows "err out = snd (invocation fn select baseBackoff s (unat maxRetries)) \<and>
    site out = ExhaustedReturn \<and> val out = zero \<and>
    invocations (trace out) = unat maxRetries + 1"
proof -
  let ?k = "unat maxRetries"
  let ?s = "state_before fn select baseBackoff s ?k"
  obtain r e s1 where fn: "fn ?s = ((r, Some e), s1)"
    using assms(3) [rule_format, of ?k]
    by (cases "fn ?s") (auto simp: invocation_def)
  have "out = retry_loop zero fn select maxRetries baseBackoff (of_nat ?k) ?s
      (rounds baseBackoff ?k)"
    using assms(1-3) retry_loop_unroll [of ?k maxRetries fn select baseBackoff s zero]
    by (simp add: out_def ExponentialRetry_def)
  also have "\<dots> = \<lparr>val = zero, err = Some e, site = ExhaustedReturn, world = s1,
      trace = rounds baseBackoff ?k @ [Invoke]\<rparr>"
    using fn by (simp add: retry_loop_exhausted)
  finally show ?thesis
    using fn
    by (simp add: invocations_append invocations_rounds invocation_def)
      (simp add: invocations_def)
qed

theorem exhaustion_returns_last_error_witness:
  "err (ExponentialRetry (0 :: int) \<lparr>Deadline = Some 1000000000\<rparr> 2 1000000
      (always_fails 0 (ErrorString ''permanent failure'')) timer_wins 0) =
     Some (ErrorString ''permanent failure'') \<and>
   invocations (trace (ExponentialRetry (0 :: int) \<lparr>Deadline = Some 1000000000\<rparr> 2 1000000
      (always_fails 0 (ErrorString ''permanent failure'')) timer_wins 0)) = 3"
proof -
  let ?fn = "always_fails 0 (ErrorString ''permanent failure'')"
  have "Deadline \<lparr>Deadline = Some 1000000000\<rparr> = Some 1000000000"
    by simp
  moreover have "\<forall>j<unat (2 :: uint). wait_after ?fn timer_wins 1000000 0 j = TimerFired"
    by (simp add: wait_after_def timer_wins_def)
  moreover have "\<forall>j\<le>unat (2 :: uint). snd (invocation ?fn timer_wins 1000000 0 j) \<noteq> None"
    by (simp add: invocation_def always_fails_def)
  moreover have "snd (invocation ?fn timer_wins 1000000 0 (unat (2 :: uint))) =
      Some (ErrorString ''permanent failure'')"
    by (simp add: invocation_def always_fails_def)
  ultimately show ?thesis
    using exhaustion_returns_last_error [of "\<lparr>Deadline = Some 1000000000\<rparr>" 1000000000 2
        ?fn timer_wins 1000000 0 "0 :: int"]
    by simp
qed

text \<open>
  C5. With a deadline on the context, let invocations 0 to k fail (k below maxRetries,
  so the budget is not exhausted), let the timer end the waits after invocations 0 to
  k - 1, and let the wait after invocation k be ended by the context, whose error is ce.
  Then ExponentialRetry returns the zero value and ce itself, whatever error e the
  operation returned last; the returned error passes the is-deadline-exceeded check
  whenever the context's error does (as it does once the deadline has elapsed); and
  the run ends there: after the k + 1 invocations and that wait
  there is only the log line, no further invocation.
\<close>

theorem cancellation_during_backoff:
  fixes zero :: 'a
  assumes "Deadline ctx = Some d"
    and "k < unat maxRetries"
    and "\<forall>j<k. snd (invocation fn select baseBackoff s j) \<noteq> None \<and>
           wait_after fn select baseBackoff s j = TimerFired"
    and "snd (invocation fn select baseBackoff s k) = Some e"
    and "wait_after fn select baseBackoff s k = CtxDone ce"
  defines "out \<equiv> ExponentialRetry zero ctx maxRetries baseBackoff fn select s"
  shows "err out = Some ce \<and> val out = zero \<and> site out = CancelledReturn \<and>
    invocations (trace out) = k + 1 \<and>
    trace out = rounds baseBackoff k @
      [Invoke, Wait (backoff baseBackoff (of_nat k)),
       Log (if errors_Is ce DeadlineExceeded then ''deadline exceeded''
            else ''canceled or timeout'')] \<and>
    (errors_Is ce DeadlineExceeded \<longrightarrow>
       (\<exists>r. err out = Some r \<and> errors_Is r DeadlineExceeded))"
proof -
  let ?s = "state_before fn select baseBackoff s k"
  obtain r s1 where fn: "fn ?s = ((r, Some e), s1)"
    using assms(4) by (cases "fn ?s") (auto simp: invocation_def)
  obtain s2 where sel: "select (backoff baseBackoff (of_nat k)) s1 = (CtxDone ce, s2)"
    using assms(5) fn
    by (cases "select (backoff baseBackoff (of_nat k)) s1") (auto simp: wait_after_def)
  have "out = retry_loop zero fn select maxRetries baseBackoff (of_nat k) ?s
      (rounds baseBackoff k)"
    using assms(1-3) retry_loop_unroll [of k maxRetries fn select baseBackoff s zero]
    by (simp add: out_def ExponentialRetry_def)
  also have "\<dots> = \<lparr>val = zero, err = Some ce, site = CancelledReturn, world = s2,
      trace = rounds baseBackoff k @ [Invoke, Wait (backoff baseBackoff (of_nat k)),
        Log (if errors_Is ce DeadlineExceeded then ''deadline exceeded''
             else ''canceled or timeout'')]\<rparr>"
    using assms(2) fn sel
    by (intro retry_loop_cancelled) (simp_all add: of_nat_below of_nat_strictly_below)
  finally show ?thesis
    by (simp add: invocations_append invocations_rounds) (simp add: invocations_def)
qed

theorem cancellation_during_backoff_witness:
  "err (ExponentialRetry (0 :: int) \<lparr>Deadline = Some 10000000\<rparr> 5 100000000
      (always_fails 0 (ErrorString ''transient'')) deadline_wins 0) = Some DeadlineExceeded \<and>
   invocations (trace (ExponentialRetry (0 :: int) \<lparr>Deadline = Some 10000000\<rparr> 5 100000000
      (always_fails 0 (ErrorString ''transient'')) deadline_wins 0)) = 1 \<and>
   trace (ExponentialRetry (0 :: int) \<lparr>Deadline = Some 10000000\<rparr> 5 100000000
      (always_fails 0 (ErrorString ''transient'')) deadline_wins 0) =
     [Invoke, Wait 100000000, Log ''deadline exceeded'']"
proof -
  let ?fn = "always_fails 0 (ErrorString ''transient'')"
  have "Deadline \<lparr>Deadline = Some 10000000\<rparr> = Some 10000000"
    by simp
  moreover have "0 < unat (5 :: uint)"
    by simp
  moreover have "\<forall>j<0. snd (invocation ?fn deadline_wins 100000000 0 j) \<noteq> None \<and>
      wait_after ?fn deadline_wins 100000000 0 j = TimerFired"
    by simp
  moreover have "snd (invocation ?fn deadline_wins 100000000 0 0) =
      Some (ErrorString ''transient'')"
    by (simp add: invocation_def always_fails_def)
  moreover have "wait_after ?fn deadline_wins 100000000 0 0 = CtxDone DeadlineExceeded"
    by (simp add: wait_after_def deadline_wins_def)
  ultimately show ?thesis
    using cancellation_during_backoff [of "\<lparr>Deadline = Some 10000000\<rparr>" 10000000 0 5
        ?fn deadline_wins 100000000 0 "ErrorString ''transient''" DeadlineExceeded "0 :: int"]
    by (simp add: backoff_def invocations_def)
qed


text \<open>
  C6, as stated, fails: the backoff is computed in \<^verbatim>\<open>time.Duration\<close>, a signed
  64-bit integer, and wraps. With baseBackoff = 2^62 ns and maxRetries = 2, an operation
  that always fails and waits that the timer ends, the wait between attempt 1 and
  attempt 2 is entered with a duration of -2^63 ns, where baseBackoff * 2^1 is 2^63 ns.
\<close>

theorem backoff_unbounded_counterexample:
  "trace (ExponentialRetry (0 :: int) \<lparr>Deadline = Some 0\<rparr> 2 4611686018427387904
      (always_fails 0 (ErrorString ''boom'')) timer_wins 0) ! 3 =
     Wait (backoff 4611686018427387904 1) \<and>
   sint (backoff 4611686018427387904 1) = - 9223372036854775808 \<and>
   sint (4611686018427387904 :: Duration) * 2 ^ 1 = 9223372036854775808"
  by (simp add: ExponentialRetry_def retry_loop.simps always_fails_def timer_wins_def
      backoff_def)

text \<open>
  C6, amended. With a deadline on the context, let i be below maxRetries, let
  invocations 0 to i fail and let the timer end the waits after invocations 0 to i - 1.
  Then the run invokes the operation for the i-th time as its event 2i and enters the
  wait after it as its event 2i + 1, with the duration \<open>backoff baseBackoff i\<close>. That
  duration is baseBackoff * 2^i reduced modulo 2^64 (no cap is applied), and it is
  baseBackoff * 2^i itself whenever this product lies in the range of a signed 64-bit
  integer.
\<close>

theorem backoff_doubles_in_int64:
  fixes zero :: 'a
  assumes "Deadline ctx = Some d"
    and "i < unat maxRetries"
    and "\<forall>j\<le>i. snd (invocation fn select baseBackoff s j) \<noteq> None"
    and "\<forall>j<i. wait_after fn select baseBackoff s j = TimerFired"
  defines "out \<equiv> ExponentialRetry zero ctx maxRetries baseBackoff fn select s"
  shows "2 * i + 1 < length (trace out) \<and>
    trace out ! (2 * i) = Invoke \<and>
    trace out ! (2 * i + 1) = Wait (backoff baseBackoff (of_nat i)) \<and>
    uint (backoff baseBackoff (of_nat i)) = (sint baseBackoff * 2 ^ i) mod 2 ^ 64 \<and>
    (- (2 ^ 63) \<le> sint baseBackoff * 2 ^ i \<and> sint baseBackoff * 2 ^ i < 2 ^ 63 \<longrightarrow>
       sint (backoff baseBackoff (of_nat i)) = sint baseBackoff * 2 ^ i)"
proof -
  let ?b = "backoff baseBackoff (of_nat i)"
  obtain more where "trace out = rounds baseBackoff i @ [Invoke, Wait ?b] @ more"
    using assms(1) wait_in_trace [OF assms(2-4), of zero]
    by (auto simp: out_def ExponentialRetry_def)
  then have events: "2 * i + 1 < length (trace out)" "trace out ! (2 * i) = Invoke"
      "trace out ! (2 * i + 1) = Wait ?b"
    by (simp_all add: nth_append length_rounds)
  have i: "unat (of_nat i :: uint) = i"
    using assms(2) of_nat_below(2) [of i maxRetries] by simp
  have "uint ?b = (sint baseBackoff * 2 ^ i) mod 2 ^ 64"
    using backoff_wraps [of baseBackoff "of_nat i"] i by simp
  moreover have "sint ?b = sint baseBackoff * 2 ^ i"
    if "- (2 ^ 63) \<le> sint baseBackoff * 2 ^ i" and "sint baseBackoff * 2 ^ i < 2 ^ 63"
    using that backoff_exact [of baseBackoff "of_nat i"] i by simp
  ultimately show ?thesis
    using events by blast
qed

theorem backoff_doubles_in_int64_witness:
  "trace (ExponentialRetry (0 :: int) \<lparr>Deadline = Some 1000000000\<rparr> 3 5000000
      (always_fails 0 (ErrorString ''boom'')) timer_wins 0) ! 5 = Wait (backoff 5000000 2) \<and>
   sint (backoff 5000000 2) = 20000000"
proof -
  let ?fn = "always_fails 0 (ErrorString ''boom'')"
  have "Deadline \<lparr>Deadline = Some 1000000000\<rparr> = Some 1000000000"
    by simp
  moreover have "2 < unat (3 :: uint)"
    by simp
  moreover have "\<forall>j\<le>2. snd (invocation ?fn timer_wins 5000000 0 j) \<noteq> None"
    by (simp add: invocation_def always_fails_def)
  moreover have "\<forall>j<2. wait_after ?fn timer_wins 5000000 0 j = TimerFired"
    by (simp add: wait_after_def timer_wins_def)
  ultimately have "trace (ExponentialRetry (0 :: int) \<lparr>Deadline = Some 1000000000\<rparr> 3 5000000
        ?fn timer_wins 0) ! (2 * 2 + 1) = Wait (backoff 5000000 (of_nat 2)) \<and>
      (- (2 ^ 63) \<le> sint (5000000 :: Duration) * 2 ^ 2 \<and>
       sint (5000000 :: Duration) * 2 ^ 2 < 2 ^ 63 \<longrightarrow>
       sint (backoff 5000000 (of_nat 2)) = sint (5000000 :: Duration) * 2 ^ 2)"
    using backoff_doubles_in_int64 [of "\<lparr>Deadline = Some 1000000000\<rparr>" 1000000000 2 3
        ?fn timer_wins 5000000 0 "0 :: int"]
    by blast
  then show ?thesis
    by simp
qed

text \<open>
  C7. No call of ExponentialRetry leaves through the return of line 40, the one that
  builds the error "exponential retry failed": for every context, maxRetries,
  baseBackoff, operation, select and starting world, the return taken is another one.
  (The loop variable starts at 0, so it is at most maxRetries when the loop is entered,
  and a pass that continues has it below maxRetries, so the increment neither passes
  maxRetries nor wraps.)
\<close>

theorem fallback_unreachable:
  "site (ExponentialRetry zero ctx maxRetries baseBackoff fn select s) \<noteq> FallbackReturn"
proof (cases "Deadline ctx")
  case None
  then show ?thesis
    by (simp add: ExponentialRetry_def)
next
  case (Some d)
  have "site (retry_loop zero fn select maxRetries baseBackoff 0 s []) \<noteq> FallbackReturn"
    by (rule loop_never_falls_through) simp
  with Some show ?thesis
    by (simp add: ExponentialRetry_def)
qed

text \<open>
  C8. Scenario A: maxRetries = 3, a context with a deadline, every wait ended by the
  timer, and an operation that returns the error "boom" every time. ExponentialRetry
  returns the error "boom" and the operation is invoked exactly 4 times.
\<close>

theorem scenario_A:
  assumes "Deadline ctx = Some d"
    and "\<forall>s. snd (fst (fn s)) = Some (ErrorString ''boom'')"
    and "\<forall>b s. fst (select b s) = TimerFired"
  shows "err (ExponentialRetry zero ctx 3 baseBackoff fn select s) =
      Some (ErrorString ''boom'') \<and>
    invocations (trace (ExponentialRetry zero ctx 3 baseBackoff fn select s)) = 4"
proof -
  let ?s = "state_before fn select baseBackoff s 3"
  obtain r s1 where fn: "fn ?s = ((r, Some (ErrorString ''boom'')), s1)"
    using assms(2) [rule_format, of ?s] by (cases "fn ?s") auto
  have "ExponentialRetry zero ctx 3 baseBackoff fn select s =
      retry_loop zero fn select 3 baseBackoff (of_nat 3) ?s (rounds baseBackoff 3)"
    using assms retry_loop_unroll [of 3 3 fn select baseBackoff s zero]
    by (simp add: ExponentialRetry_def invocation_def wait_after_def)
  also have "\<dots> = \<lparr>val = zero, err = Some (ErrorString ''boom''), site = ExhaustedReturn,
      world = s1, trace = rounds baseBackoff 3 @ [Invoke]\<rparr>"
    using fn by (simp add: retry_loop_exhausted)
  finally show ?thesis
    by (simp add: invocations_append invocations_rounds) (simp add: invocations_def)
qed

theorem scenario_A_witness:
  "err (ExponentialRetry (0 :: int) \<lparr>Deadline = Some 1000000000\<rparr> 3 5000000
      (always_fails 0 (ErrorString ''boom'')) timer_wins 0) = Some (ErrorString ''boom'') \<and>
   invocations (trace (ExponentialRetry (0 :: int) \<lparr>Deadline = Some 1000000000\<rparr> 3 5000000
      (always_fails 0 (ErrorString ''boom'')) timer_wins 0)) = 4"
proof -
  have "Deadline \<lparr>Deadline = Some 1000000000\<rparr> = Some 1000000000"
    by simp
  moreover have "\<forall>s. snd (fst (always_fails 0 (ErrorString ''boom'') s)) =
      Some (ErrorString ''boom'')"
    by (simp add: always_fails_def)
  moreover have "\<forall>b s. fst (timer_wins b s) = TimerFired"
    by (simp add: timer_wins_def)
  ultimately show ?thesis
    by (rule scenario_A)
qed

text \<open>
  C9. Whenever ExponentialRetry returns an error, and whenever it leaves through a
  return other than the one of line 20, the value it returns is the zero value of T;
  the two conditions describe the same runs. A value that the operation returned
  next to an error is never passed on.
\<close>

theorem error_paths_return_zero:
  fixes zero :: 'a and ctx :: Context and maxRetries :: uint and baseBackoff :: Duration
    and fn :: "'s \<Rightarrow> ('a \<times> error option) \<times> 's"
    and select :: "Duration \<Rightarrow> 's \<Rightarrow> select_result \<times> 's" and s :: 's
  defines "out \<equiv> ExponentialRetry zero ctx maxRetries baseBackoff fn select s"
  assumes "err out \<noteq> None \<or> site out \<noteq> SuccessReturn"
  shows "val out = zero \<and> err out \<noteq> None \<and> site out \<noteq> SuccessReturn"
proof (cases "Deadline ctx")
  case None
  then show ?thesis
    by (simp add: out_def ExponentialRetry_def)
next
  case (Some d)
  with assms(2) loop_error_paths [of zero fn select maxRetries baseBackoff 0 s "[]"]
  show ?thesis
    by (simp add: out_def ExponentialRetry_def)
qed

theorem error_paths_return_zero_witness:
  "err (ExponentialRetry (0 :: int) \<lparr>Deadline = Some 10000000\<rparr> 5 100000000
      (always_fails 5 (ErrorString ''transient'')) deadline_wins 0) \<noteq> None \<and>
   val (ExponentialRetry (0 :: int) \<lparr>Deadline = Some 10000000\<rparr> 5 100000000
      (always_fails 5 (ErrorString ''transient'')) deadline_wins 0) = 0"
proof -
  have "err (ExponentialRetry (0 :: int) \<lparr>Deadline = Some 10000000\<rparr> 5 100000000
      (always_fails 5 (ErrorString ''transient'')) deadline_wins 0) \<noteq> None"
    by (simp add: ExponentialRetry_def retry_loop.simps always_fails_def deadline_wins_def)
  then show ?thesis
    using error_paths_return_zero [of "0 :: int" "\<lparr>Deadline = Some 10000000\<rparr>" 5 100000000
        "always_fails 5 (ErrorString ''transient'')" deadline_wins 0]
    by simp
qed

section \<open>Properties of sequences of RoundTrip calls\<close>

lemma round_trips_state:
  assumes "0 \<le> index srt" and "index srt \<le> int (length (responses srt))"
  shows "responses (snd (round_trips srt reqs)) = responses srt \<and>
    index (snd (round_trips srt reqs)) =
      min (index srt + int (length reqs)) (int (length (responses srt)))"
  using assms
proof (induction reqs arbitrary: srt)
  case Nil
  then show ?case by simp
next
  case (Cons req reqs)
  show ?case
  proof (cases "index srt < int (length (responses srt))")
    case True
    let ?srt1 = "srt\<lparr>index := index srt + 1\<rparr>"
    have step: "RoundTrip srt req = (Returned (responses srt ! nat (index srt)) None, ?srt1)"
      using True Cons.prems by (simp add: RoundTrip_def)
    have "responses (snd (round_trips ?srt1 reqs)) = responses ?srt1 \<and>
        index (snd (round_trips ?srt1 reqs)) =
          min (index ?srt1 + int (length reqs)) (int (length (responses ?srt1)))"
      using True Cons.prems by (intro Cons.IH) simp_all
    with step show ?thesis
      by (simp add: split_beta add.assoc)
  next
    case False
    then have full: "index srt = int (length (responses srt))"
      using Cons.prems by simp
    obtain srt1 where step: "RoundTrip srt req = (Returned None (Some ErrNoMockResponse), srt1)"
        and same: "responses srt1 = responses srt" "index srt1 = index srt"
      using full by (cases "t srt") (simp_all add: RoundTrip_def)
    have "responses (snd (round_trips srt1 reqs)) = responses srt1 \<and>
        index (snd (round_trips srt1 reqs)) =
          min (index srt1 + int (length reqs)) (int (length (responses srt1)))"
      using full same by (intro Cons.IH) simp_all
    with step same full show ?thesis
      by (simp add: split_beta)
  qed
qed


lemma round_trips_results:
  assumes "0 \<le> index srt" and "index srt \<le> int (length (responses srt))"
  shows "fst (round_trips srt reqs) =
    map (\<lambda>j. replayed (responses srt) (nat (index srt) + j)) [0..<length reqs]"
  using assms
proof (induction reqs arbitrary: srt)
  case Nil
  then show ?case by simp
next
  case (Cons req reqs)
  have shift: "map (\<lambda>j. replayed rs (i + j)) [0..<Suc n] =
      replayed rs i # map (\<lambda>j. replayed rs (Suc i + j)) [0..<n]" for rs :: "'a option list" and i n
    by (simp add: upt_conv_Cons map_Suc_upt [symmetric] del: upt_Suc)
  show ?case
  proof (cases "index srt < int (length (responses srt))")
    case True
    let ?srt1 = "srt\<lparr>index := index srt + 1\<rparr>"
    have step: "RoundTrip srt req = (Returned (responses srt ! nat (index srt)) None, ?srt1)"
      using True Cons.prems by (simp add: RoundTrip_def)
    have "fst (round_trips ?srt1 reqs) =
        map (\<lambda>j. replayed (responses ?srt1) (nat (index ?srt1) + j)) [0..<length reqs]"
      using True Cons.prems by (intro Cons.IH) simp_all
    moreover have "nat (index srt + 1) = Suc (nat (index srt))"
      using Cons.prems by simp
    moreover have "replayed (responses srt) (nat (index srt)) =
        Returned (responses srt ! nat (index srt)) None"
      using True Cons.prems by simp
    ultimately show ?thesis
      using step by (simp add: split_beta shift del: upt_Suc)
  next
    case False
    then have full: "index srt = int (length (responses srt))"
      using Cons.prems by simp
    obtain srt1 where step: "RoundTrip srt req = (Returned None (Some ErrNoMockResponse), srt1)"
        and same: "responses srt1 = responses srt" "index srt1 = index srt"
      using full by (cases "t srt") (simp_all add: RoundTrip_def)
    have "fst (round_trips srt1 reqs) =
        map (\<lambda>j. replayed (responses srt1) (nat (index srt1) + j)) [0..<length reqs]"
      using full same by (intro Cons.IH) simp_all
    moreover have "\<not> nat (index srt) + j < length (responses srt)" for j
      using full by simp
    ultimately show ?thesis
      using step same by (simp add: split_beta map_replicate_const del: upt_Suc)
  qed
qed


section \<open>Claims about TestingRoundTripper\<close>

text \<open>
  C10. Take a round tripper whose index is 0 and call RoundTrip on it once for each
  request of a list. No call panics, and call j (0-indexed) returns the j-th stored
  response with a nil error while j is below the number of stored responses, and nil
  with ErrNoMockResponse from then on. After the calls the stored responses are the
  same and the index is the number of responses handed out, so each call that handed
  one out raised it by exactly one and the others left it alone. More generally, in any
  state whose index has reached or passed the number of stored responses, a call
  returns nil with ErrNoMockResponse and leaves the responses and the index as they are.
\<close>

theorem round_trip_replays:
  fixes srt x :: "'r TestingRoundTripper" and reqs :: "'q list" and req :: 'q
  assumes "index srt = 0"
  shows "fst (round_trips srt reqs) = map (replayed (responses srt)) [0..<length reqs] \<and>
    responses (snd (round_trips srt reqs)) = responses srt \<and>
    index (snd (round_trips srt reqs)) = int (min (length reqs) (length (responses srt))) \<and>
    (int (length (responses x)) \<le> index x \<longrightarrow>
       fst (RoundTrip x req) = Returned None (Some ErrNoMockResponse) \<and>
       responses (snd (RoundTrip x req)) = responses x \<and>
       index (snd (RoundTrip x req)) = index x)"
proof -
  have "fst (round_trips srt reqs) =
      map (\<lambda>j. replayed (responses srt) (nat (index srt) + j)) [0..<length reqs]"
    using assms by (intro round_trips_results) simp_all
  then have results: "fst (round_trips srt reqs) =
      map (replayed (responses srt)) [0..<length reqs]"
    using assms by simp
  have state: "responses (snd (round_trips srt reqs)) = responses srt \<and>
      index (snd (round_trips srt reqs)) =
        min (index srt + int (length reqs)) (int (length (responses srt)))"
    using assms by (intro round_trips_state) simp_all
  have "fst (RoundTrip x req) = Returned None (Some ErrNoMockResponse) \<and>
      responses (snd (RoundTrip x req)) = responses x \<and>
      index (snd (RoundTrip x req)) = index x"
    if "int (length (responses x)) \<le> index x"
    using that by (cases "t x") (simp_all add: RoundTrip_def)
  with results state assms show ?thesis
    by simp
qed

theorem round_trip_replays_witness:
  "index token_refresh = 0 \<and>
   fst (round_trips token_refresh [''GET'', ''POST'', ''GET'', ''GET'']) =
     [Returned (Some (401, ''token expired'')) None,
      Returned (Some (200, ''{\"access_token\":\"newtok\"}'')) None,
      Returned (Some (200, ''welcome'')) None,
      Returned None (Some ErrNoMockResponse)] \<and>
   index (snd (round_trips token_refresh [''GET'', ''POST'', ''GET'', ''GET''])) = 3"
proof -
  have fresh: "index token_refresh = 0"
    by (simp add: token_refresh_def WithMockResponses_def)
  have "responses token_refresh =
      [Some (401, ''token expired''), Some (200, ''{\"access_token\":\"newtok\"}''),
       Some (200, ''welcome'')]"
    by (simp add: token_refresh_def WithMockResponses_def)
  with fresh round_trip_replays [OF fresh, of "[''GET'', ''POST'', ''GET'', ''GET'']"]
  show ?thesis
    by (simp add: upt_rec)
qed

end
